theory Spec2Isabelle
  imports Complex_Main "HOL-Library.Signed_Division" "HOL-Library.AList"
begin

section \<open>Faults\<close>

text \<open>
  A Go function either returns normally, returns a non-nil \<open>error\<close>, or panics.
  \<open>Failure\<close> is a returned error value, \<open>Panic\<close> a run-time panic.
\<close>

datatype fault = Failure string | Panic string

section \<open>64-bit integers\<close>

text \<open>
  Go's \<open>int64\<close>: values are integers in \<open>[-2^63, 2^63)\<close>; \<open>+\<close>, \<open>-\<close> and \<open>*\<close>
  wrap around, \<open>/\<close> and \<open>%\<close> truncate towards zero (\<open>sdiv\<close>, \<open>smod\<close>) and panic on
  a zero divisor (the callers below check the divisor first).
\<close>

definition wrap64 :: "int \<Rightarrow> int" where
  "wrap64 x = (x + 2 ^ 63) mod 2 ^ 64 - 2 ^ 63"

definition add64 :: "int \<Rightarrow> int \<Rightarrow> int" where
  "add64 a b = wrap64 (a + b)"

definition sub64 :: "int \<Rightarrow> int \<Rightarrow> int" where
  "sub64 a b = wrap64 (a - b)"

definition mul64 :: "int \<Rightarrow> int \<Rightarrow> int" where
  "mul64 a b = wrap64 (a * b)"

definition quo64 :: "int \<Rightarrow> int \<Rightarrow> int" where
  "quo64 a b = wrap64 (a sdiv b)"

definition rem64 :: "int \<Rightarrow> int \<Rightarrow> int" where
  "rem64 a b = a smod b"

section \<open>Query-range splitter (pkg/querier/frontend/split\_by\_day.go)\<close>

subsection \<open>Requests\<close>

record queryRangeRequest =
  req_path :: string
  req_start :: int
  req_end :: int
  req_step :: int
  req_query :: string

text \<open>\<open>int64(24 * time.Hour / time.Millisecond)\<close>\<close>

definition millisecondPerDay :: int where
  "millisecondPerDay = 86400000"

subsection \<open>nextDayBoundary\<close>

text \<open>
  \<^verbatim>\<open>offsetToDayBoundary := step - (t % millisecondPerDay % step)\<close>,
  \<^verbatim>\<open>t = ((t / millisecondPerDay) + 1) * millisecondPerDay\<close>,
  \<^verbatim>\<open>return t - offsetToDayBoundary\<close>.
  The remainder by \<open>step\<close> panics when \<open>step = 0\<close>.
\<close>

definition nextDayBoundary :: "int \<Rightarrow> int \<Rightarrow> fault + int" where
  "nextDayBoundary t step =
     (if step = 0 then Inl (Panic ''integer divide by zero'')
      else
        let offsetToDayBoundary = sub64 step (rem64 (rem64 t millisecondPerDay) step);
            t' = mul64 (add64 (quo64 t millisecondPerDay) 1) millisecondPerDay
        in Inr (sub64 t' offsetToDayBoundary))"

subsection \<open>splitQuery\<close>

text \<open>
  The loop \<^verbatim>\<open>for start := r.start; start < r.end; start = nextDayBoundary(start, r.step) + r.step\<close>
  with the slice \<open>reqs\<close> as accumulator.  The result is \<open>None\<close> when the loop does not
  terminate, \<open>Some (Inl p)\<close> when it panics and \<open>Some (Inr reqs)\<close> when it returns.
\<close>

partial_function (option) splitLoop ::
  "queryRangeRequest \<Rightarrow> int \<Rightarrow> queryRangeRequest list \<Rightarrow> (fault + queryRangeRequest list) option"
where
  "splitLoop r start reqs =
     (if start < req_end r then
        (case nextDayBoundary start (req_step r) of
           Inl p \<Rightarrow> Some (Inl p)
         | Inr ndb \<Rightarrow>
             let end0 = ndb;
                 end1 = (if add64 end0 (req_step r) \<ge> req_end r then req_end r else end0)
             in splitLoop r (add64 ndb (req_step r))
                  (reqs @ [\<lparr>req_path = req_path r, req_start = start, req_end = end1,
                            req_step = req_step r, req_query = req_query r\<rparr>]))
      else Some (Inr reqs))"

definition splitQuery :: "queryRangeRequest \<Rightarrow> (fault + queryRangeRequest list) option" where
  "splitQuery r = splitLoop r (req_start r) []"

subsection \<open>Step samples\<close>

text \<open>
  The step-sample set \<open>{start, start + step, \<dots>, end}\<close> of a query: the times
  \<open>start + k * step\<close> (\<open>k \<ge> 0\<close>) that do not exceed \<open>end\<close>, as a membership test.
\<close>

definition inStepSamples :: "queryRangeRequest \<Rightarrow> int \<Rightarrow> bool" where
  "inStepSamples q x =
     (req_start q \<le> x \<and> x \<le> req_end q \<and> (x - req_start q) mod req_step q = 0)"

definition stepSamples :: "queryRangeRequest \<Rightarrow> int set" where
  "stepSamples q = {x. inStepSamples q x}"

text \<open>
  The number of sub-queries that sample the time \<open>x\<close>.  A list of sub-queries
  partitions the samples of a query when this number is 1 at every sample of the
  query and 0 at every other time.
\<close>

definition coverCount :: "queryRangeRequest list \<Rightarrow> int \<Rightarrow> nat" where
  "coverCount subs x = length (filter (\<lambda>q. inStepSamples q x) subs)"

subsection \<open>Responses\<close>

text \<open>
  The Prometheus result model, as far as the merger looks into it.  A \<open>model.Metric\<close>
  is a map from label names to label values; sample values are \<open>float64\<close> and are only
  moved around, so their type is left open.  \<open>model.Vector\<close> and \<open>model.Matrix\<close> are
  slices of pointers: \<open>None\<close> is a nil pointer.  \<open>model.Value\<close> is an interface:
  \<open>NilValue\<close> is the nil interface, \<open>OtherValue\<close> a scalar or a string.
\<close>

type_synonym Metric = "string \<rightharpoonup> string"

datatype ValueType = ValNone | ValScalar | ValVector | ValMatrix | ValString

record 'v SamplePair =
  sp_Timestamp :: int
  sp_Value :: 'v

record 'v Sample =
  s_Metric :: Metric
  s_Value :: 'v
  s_Timestamp :: int

record 'v SampleStream =
  ss_Metric :: Metric
  ss_Values :: "'v SamplePair list"

datatype 'v Value =
    NilValue
  | Vector "'v Sample option list"
  | Matrix "'v SampleStream option list"
  | OtherValue

record 'v queryRangeResponse =
  ResultType :: ValueType
  Result :: "'v Value"

record 'v apiResponse =
  Data :: "'v queryRangeResponse"

text \<open>\<^verbatim>\<open>&apiResponse{}\<close>: every field has its zero value.\<close>

definition emptyApiResponse :: "'v apiResponse" where
  "emptyApiResponse = \<lparr>Data = \<lparr>ResultType = ValNone, Result = NilValue\<rparr>\<rparr>"

text \<open>\<open>resp\<close> is a pointer (\<open>None\<close> is nil), \<open>err\<close> an error value (\<open>None\<close> is nil).\<close>

record 'v response =
  resp_req :: queryRangeRequest
  resp_resp :: "'v apiResponse option"
  resp_err :: "fault option"

subsection \<open>vectorMerge\<close>

text \<open>
  \<^verbatim>\<open>output = append(output, resp.resp.Data.Result.(model.Vector)...)\<close> for every response;
  a nil \<open>resp\<close> or a result that is not a vector panics.
\<close>

fun vectorLoop :: "'v response list \<Rightarrow> 'v Sample option list \<Rightarrow> fault + 'v Sample option list" where
  "vectorLoop [] output = Inr output"
| "vectorLoop (resp # resps) output =
     (case resp_resp resp of
        None \<Rightarrow> Inl (Panic ''nil pointer dereference'')
      | Some a \<Rightarrow>
          (case Result (Data a) of
             Vector v \<Rightarrow> vectorLoop resps (output @ v)
           | _ \<Rightarrow> Inl (Panic ''interface conversion'')))"

definition vectorMerge :: "'v response list \<Rightarrow> fault + 'v apiResponse" where
  "vectorMerge resps =
     (case vectorLoop resps [] of
        Inl p \<Rightarrow> Inl p
      | Inr output \<Rightarrow> Inr \<lparr>Data = \<lparr>ResultType = ValVector, Result = Vector output\<rparr>\<rparr>)"

subsection \<open>matrixMerge\<close>

text \<open>
  \<open>output\<close> is a Go map from the metric's string form to a stream pointer.  It is kept
  as an association list in insertion order; Go iterates over a map in an unspecified
  order, of which insertion order is one.  \<open>String\<close> is \<open>model.Metric.String\<close>.

  The inner loop body: a key not yet in \<open>output\<close> is bound to the stream; otherwise the
  stream's values are appended to the values of the stream already there.  (The
  stream bound to a key is the object of the response it came from, which the append
  changes as well; only the merged result is returned here.)
\<close>

fun streamLoop ::
  "(Metric \<Rightarrow> string) \<Rightarrow> 'v SampleStream option list \<Rightarrow> (string \<times> 'v SampleStream) list
     \<Rightarrow> fault + (string \<times> 'v SampleStream) list"
where
  "streamLoop String [] output = Inr output"
| "streamLoop String (None # matrix) output = Inl (Panic ''nil pointer dereference'')"
| "streamLoop String (Some stream # matrix) output =
     (let metric = String (ss_Metric stream) in
        case map_of output metric of
          None \<Rightarrow> streamLoop String matrix (output @ [(metric, stream)])
        | Some existing \<Rightarrow>
            streamLoop String matrix
              (AList.update metric (existing\<lparr>ss_Values := ss_Values existing @ ss_Values stream\<rparr>) output))"

fun matrixLoop ::
  "(Metric \<Rightarrow> string) \<Rightarrow> 'v response list \<Rightarrow> (string \<times> 'v SampleStream) list
     \<Rightarrow> fault + (string \<times> 'v SampleStream) list"
where
  "matrixLoop String [] output = Inr output"
| "matrixLoop String (resp # resps) output =
     (case resp_resp resp of
        None \<Rightarrow> Inl (Panic ''nil pointer dereference'')
      | Some a \<Rightarrow>
          (case Result (Data a) of
             Matrix matrix \<Rightarrow>
               (case streamLoop String matrix output of
                  Inl p \<Rightarrow> Inl p
                | Inr output' \<Rightarrow> matrixLoop String resps output')
           | _ \<Rightarrow> Inl (Panic ''interface conversion'')))"

text \<open>
  \<^verbatim>\<open>result := make(model.Matrix, len(output))\<close> allocates a slice of \<open>len(output)\<close> nil
  pointers, and \<^verbatim>\<open>result = append(result, stream)\<close> adds every stream after them.
\<close>

definition matrixMerge :: "(Metric \<Rightarrow> string) \<Rightarrow> 'v response list \<Rightarrow> fault + 'v apiResponse" where
  "matrixMerge String resps =
     (case matrixLoop String resps [] of
        Inl p \<Rightarrow> Inl p
      | Inr output \<Rightarrow>
          let result = replicate (length output) None;
              result' = result @ map (\<lambda>(metric, stream). Some stream) output
          in Inr \<lparr>Data = \<lparr>ResultType = ValMatrix, Result = Matrix result'\<rparr>\<rparr>)"

subsection \<open>Do\<close>

text \<open>
  The gathering loop of \<open>Do\<close>, over the values received from the channel \<open>resps\<close> in the
  order of their arrival: a response with an error is dropped, and the first such error
  is kept in \<open>firstErr\<close> and \<open>cancel\<close> is called; every other response is appended to
  \<open>responses\<close>.  \<open>cancels\<close> counts the calls of \<open>cancel\<close> made by the loop (the deferred
  call at the return of \<open>Do\<close> is not among them).
\<close>

fun gather ::
  "'v response list \<Rightarrow> 'v response list \<Rightarrow> fault option \<Rightarrow> nat
     \<Rightarrow> 'v response list \<times> fault option \<times> nat"
where
  "gather [] responses firstErr cancels = (responses, firstErr, cancels)"
| "gather (resp # arrivals) responses firstErr cancels =
     (case resp_err resp of
        Some e \<Rightarrow>
          if firstErr = None then gather arrivals responses (Some e) (Suc cancels)
          else gather arrivals responses firstErr cancels
      | None \<Rightarrow> gather arrivals (responses @ [resp]) firstErr cancels)"

text \<open>
  The loop \<^verbatim>\<open>for range reqs\<close> receives \<open>len(reqs)\<close> values from the channel;
  \<open>recv i\<close> is the \<open>i\<close>-th value received.  The goroutines run in parallel, so nothing
  is fixed about the order in which their responses arrive: \<open>recv\<close> is arbitrary.
\<close>

definition received :: "(nat \<Rightarrow> 'v response) \<Rightarrow> queryRangeRequest list \<Rightarrow> 'v response list" where
  "received recv reqs = map recv [0..<length reqs]"

text \<open>
  The rest of \<open>Do\<close> from \<^verbatim>\<open>// Merge the responses.\<close> on.
  \<open>sort.Sort(byFirstTime(responses))\<close> orders by \<open>req.start\<close>; it is modelled by a stable
  sort, which agrees with it when the starts are distinct.
\<close>

definition mergeStep :: "(Metric \<Rightarrow> string) \<Rightarrow> 'v response list \<Rightarrow> fault + 'v apiResponse" where
  "mergeStep String responses =
     (let sorted = sort_key (\<lambda>x. req_start (resp_req x)) responses in
        if length sorted = 0 then Inr emptyApiResponse
        else
          (case resp_resp (hd sorted) of
             None \<Rightarrow> Inl (Panic ''nil pointer dereference'')
           | Some a \<Rightarrow>
               (case Result (Data a) of
                  Vector v \<Rightarrow> vectorMerge sorted
                | Matrix m \<Rightarrow> matrixMerge String sorted
                | _ \<Rightarrow> Inl (Failure ''unexpected response type''))))"

text \<open>
  \<open>Do\<close> starts one goroutine per sub-query, each calling the downstream once, gathers
  the responses, returns the first error if there was one and merges otherwise.
  The result pairs what \<open>Do\<close> returns with the list of requests handed to the
  downstream.  The result is \<open>None\<close> when \<open>splitQuery\<close> does not return.
\<close>

definition Do ::
  "(Metric \<Rightarrow> string) \<Rightarrow> (nat \<Rightarrow> 'v response) \<Rightarrow> queryRangeRequest
     \<Rightarrow> ((fault + 'v apiResponse) \<times> queryRangeRequest list) option"
where
  "Do String recv r =
     (case splitQuery r of
        None \<Rightarrow> None
      | Some (Inl p) \<Rightarrow> Some (Inl p, [])
      | Some (Inr reqs) \<Rightarrow>
          Some
            (case gather (received recv reqs) [] None 0 of
               (responses, Some firstErr, cancels) \<Rightarrow> Inl firstErr
             | (responses, None, cancels) \<Rightarrow> mergeStep String responses,
             reqs))"

section \<open>Ingester write-ahead log (pkg/ingester/wal.go)\<close>

subsection \<open>Configuration and log entries\<close>

text \<open>
  \<open>WALConfig\<close> without its metrics registerer, which is only handed on to \<open>wal.New\<close>.
  \<open>checkpointDuration\<close> is a \<open>time.Duration\<close>, a number of nanoseconds.
\<close>

record WALConfig =
  cfg_enabled :: bool
  cfg_recover :: bool
  cfg_dir :: string
  cfg_checkpointDuration :: int

type_synonym bytes = "nat list"

type_synonym LabelPairs = "(string \<times> string) list"

text \<open>
  Chunks are opaque to this file: \<open>wireChunk\<close> is the encoded form kept in a checkpoint
  entry, \<open>chunkDesc\<close> the form held by a series in memory.
\<close>

typedecl wireChunk
typedecl chunkDesc

text \<open>The protobuf messages \<open>Labels\<close>, \<open>Sample\<close>, \<open>Record\<close> and \<open>Series\<close>.\<close>

record Labels =
  lbl_Fingerprint :: int
  lbl_Labels :: LabelPairs

record 'v WalSample =
  smp_Fingerprint :: int
  smp_Timestamp :: int
  smp_Value :: 'v

record 'v Record =
  rec_UserId :: string
  rec_Labels :: "Labels list"
  rec_Samples :: "'v WalSample list"

record Series =
  ser_UserId :: string
  ser_Fingerprint :: int
  ser_Labels :: LabelPairs
  ser_Chunks :: "wireChunk list"

subsection \<open>Collaborators\<close>

text \<open>
  The segmented log of \<open>prometheus/tsdb/wal\<close>, over a log handle \<open>'l\<close>.
  \<open>walNew dir name\<close> is \<open>wal.New(\<dots>, path.Join(dir, name))\<close>.
  \<open>openSegments dir name\<close> is \<open>wal.NewSegmentsReader(path.Join(dir, name))\<close> followed by
  \<open>wal.NewReader\<close>: it fails, or gives the records that \<open>Next\<close>/\<open>Record\<close> yield in order
  and the value of \<open>Err\<close> once \<open>Next\<close> has returned false.
\<close>

record 'l logOps =
  walNew :: "string \<Rightarrow> string \<Rightarrow> fault + 'l"
  walLog :: "'l \<Rightarrow> bytes \<Rightarrow> fault option \<times> 'l"
  walSegments :: "'l \<Rightarrow> fault + int \<times> int"
  walTruncate :: "'l \<Rightarrow> int \<Rightarrow> fault option \<times> 'l"
  walClose :: "'l \<Rightarrow> 'l"
  openSegments :: "string \<Rightarrow> string \<Rightarrow> fault + bytes list \<times> fault option"

text \<open>\<open>proto.Marshal\<close>, \<open>proto.Unmarshal\<close> and the chunk conversions.\<close>

record 'v codecOps =
  marshalSeries :: "Series \<Rightarrow> fault + bytes"
  unmarshalSeries :: "bytes \<Rightarrow> fault + Series"
  unmarshalRecord :: "bytes \<Rightarrow> fault + 'v Record"
  toWireChunks :: "chunkDesc list \<Rightarrow> fault + wireChunk list"
  fromWireChunks :: "wireChunk list \<Rightarrow> fault + chunkDesc list"

text \<open>
  The ingester's memory store, over the type \<open>'us\<close> of \<open>userStates\<close>.  A per-user state
  is addressed by the user id, a series by user id and fingerprint.
  \<open>getOrCreate us uid\<close> is \<open>userStates.getOrCreate\<close> for the context carrying \<open>uid\<close>;
  \<open>fpGet us uid fp\<close> is the \<open>ok\<close> of \<open>state.fpToSeries.get(fp)\<close>;
  \<open>seriesAdd\<close> is \<open>series.add\<close> and \<open>setChunks\<close> is \<open>series.setChunks\<close>, each with
  the error it returns and the store it leaves;
  \<open>iterSeries\<close> lists the live series, as \<open>userStates.cp()\<close> and \<open>fpToSeries.iter()\<close> do.
\<close>

record ('us, 'v) storeOps =
  newUserStates :: "'us"
  getOrCreate :: "'us \<Rightarrow> string \<Rightarrow> fault + 'us"
  fpGet :: "'us \<Rightarrow> string \<Rightarrow> int \<Rightarrow> bool"
  createSeriesWithFingerprint :: "'us \<Rightarrow> string \<Rightarrow> int \<Rightarrow> LabelPairs \<Rightarrow> fault + 'us"
  seriesAdd :: "'us \<Rightarrow> string \<Rightarrow> int \<Rightarrow> 'v SamplePair \<Rightarrow> fault option \<times> 'us"
  setChunks :: "'us \<Rightarrow> string \<Rightarrow> int \<Rightarrow> chunkDesc list \<Rightarrow> fault option \<times> 'us"
  iterSeries :: "'us \<Rightarrow> (string \<times> int) list"
  seriesChunkDescs :: "'us \<Rightarrow> string \<Rightarrow> int \<Rightarrow> chunkDesc list"
  seriesLabels :: "'us \<Rightarrow> string \<Rightarrow> int \<Rightarrow> LabelPairs"

subsection \<open>The wrapper\<close>

text \<open>
  \<open>w_userStates\<close> is \<open>w.ingester.userStates\<close>; \<open>w_quitClosed\<close> tells whether the channel
  \<open>quit\<close> has been closed; \<open>w_running\<close> whether the goroutine \<open>run\<close>, counted by the wait
  group \<open>wait\<close>, is alive.
\<close>

record ('us, 'l) wrapper =
  w_cfg :: WALConfig
  w_userStates :: "'us"
  w_quitClosed :: bool
  w_running :: bool
  w_lastCheckpointSegment :: int
  w_lastSamplesSegment :: int
  w_samples :: "'l"
  w_checkpoints :: "'l"

datatype ('us, 'l) WAL = Noop | Wrapper "('us, 'l) wrapper"

subsection \<open>recoverRecords\<close>

text \<open>
  The state a replay works on: the local \<open>userStates\<close> of \<open>recover\<close> and the errors
  written to the logger at info level.
\<close>

record 'us replayState =
  rs_userStates :: "'us"
  rs_logged :: "fault list"

text \<open>The loop \<^verbatim>\<open>for reader.Next() { \<dots> }\<close> over the records still to be read.\<close>

fun readLoop ::
  "(bytes \<Rightarrow> fault + 'm) \<Rightarrow> ('m \<Rightarrow> 's \<Rightarrow> fault option \<times> 's) \<Rightarrow> bytes list \<Rightarrow> 's
     \<Rightarrow> fault option \<times> 's"
where
  "readLoop unmarshal callback [] s = (None, s)"
| "readLoop unmarshal callback (b # bs) s =
     (case unmarshal b of
        Inl e \<Rightarrow> (Some e, s)
      | Inr msg \<Rightarrow>
          (case callback msg s of
             (Some e, s') \<Rightarrow> (Some e, s')
           | (None, s') \<Rightarrow> readLoop unmarshal callback bs s'))"

definition recoverRecords ::
  "'l logOps \<Rightarrow> string \<Rightarrow> string \<Rightarrow> (bytes \<Rightarrow> fault + 'm) \<Rightarrow> ('m \<Rightarrow> 's \<Rightarrow> fault option \<times> 's) \<Rightarrow> 's
     \<Rightarrow> fault option \<times> 's"
where
  "recoverRecords L dir name unmarshal callback s =
     (case openSegments L dir name of
        Inl e \<Rightarrow> (Some e, s)
      | Inr (records, readerErr) \<Rightarrow>
          (case readLoop unmarshal callback records s of
             (Some e, s') \<Rightarrow> (Some e, s')
           | (None, s') \<Rightarrow> (readerErr, s')))"

subsection \<open>recover\<close>

text \<open>The callback for the checkpoint log.\<close>

definition checkpointCallback ::
  "'v codecOps \<Rightarrow> ('us, 'v) storeOps \<Rightarrow> Series \<Rightarrow> 'us replayState \<Rightarrow> fault option \<times> 'us replayState"
where
  "checkpointCallback C S walSeries s =
     (case fromWireChunks C (ser_Chunks walSeries) of
        Inl e \<Rightarrow> (Some e, s)
      | Inr descs \<Rightarrow>
          (case getOrCreate S (rs_userStates s) (ser_UserId walSeries) of
             Inl e \<Rightarrow> (Some e, s)
           | Inr us1 \<Rightarrow>
               (case createSeriesWithFingerprint S us1 (ser_UserId walSeries)
                       (ser_Fingerprint walSeries) (ser_Labels walSeries) of
                  Inl e \<Rightarrow> (Some e, s\<lparr>rs_userStates := us1\<rparr>)
                | Inr us2 \<Rightarrow>
                    (case setChunks S us2 (ser_UserId walSeries) (ser_Fingerprint walSeries) descs of
                       (err, us3) \<Rightarrow> (err, s\<lparr>rs_userStates := us3\<rparr>)))))"

text \<open>
  The callback for the sample log.  First loop: a label-set declaration whose
  fingerprint is already present is passed over (\<open>continue\<close>), otherwise the series is
  created, and a failure to create it is returned.
\<close>

fun labelsLoop ::
  "('us, 'v) storeOps \<Rightarrow> string \<Rightarrow> Labels list \<Rightarrow> 'us \<Rightarrow> fault option \<times> 'us"
where
  "labelsLoop S uid [] us = (None, us)"
| "labelsLoop S uid (labels # rest) us =
     (if fpGet S us uid (lbl_Fingerprint labels) then labelsLoop S uid rest us
      else
        (case createSeriesWithFingerprint S us uid (lbl_Fingerprint labels) (lbl_Labels labels) of
           Inl e \<Rightarrow> (Some e, us)
         | Inr us' \<Rightarrow> labelsLoop S uid rest us'))"

text \<open>
  Second loop: \<^verbatim>\<open>if !ok { return nil }\<close> leaves the callback at a sample whose
  fingerprint has no series; otherwise the sample is added, and an error of \<open>add\<close> is
  logged and the loop goes on.
\<close>

fun samplesLoop ::
  "('us, 'v) storeOps \<Rightarrow> string \<Rightarrow> 'v WalSample list \<Rightarrow> 'us replayState \<Rightarrow> 'us replayState"
where
  "samplesLoop S uid [] s = s"
| "samplesLoop S uid (sample # rest) s =
     (if \<not> fpGet S (rs_userStates s) uid (smp_Fingerprint sample) then s
      else
        (case seriesAdd S (rs_userStates s) uid (smp_Fingerprint sample)
                \<lparr>sp_Timestamp = smp_Timestamp sample, sp_Value = smp_Value sample\<rparr> of
           (Some e, us') \<Rightarrow>
             samplesLoop S uid rest (s\<lparr>rs_userStates := us', rs_logged := rs_logged s @ [e]\<rparr>)
         | (None, us') \<Rightarrow> samplesLoop S uid rest (s\<lparr>rs_userStates := us'\<rparr>)))"

definition samplesCallback ::
  "('us, 'v) storeOps \<Rightarrow> 'v Record \<Rightarrow> 'us replayState \<Rightarrow> fault option \<times> 'us replayState"
where
  "samplesCallback S record s =
     (case getOrCreate S (rs_userStates s) (rec_UserId record) of
        Inl e \<Rightarrow> (Some e, s)
      | Inr us1 \<Rightarrow>
          (case labelsLoop S (rec_UserId record) (rec_Labels record) us1 of
             (Some e, us2) \<Rightarrow> (Some e, s\<lparr>rs_userStates := us2\<rparr>)
           | (None, us2) \<Rightarrow>
               (None, samplesLoop S (rec_UserId record) (rec_Samples record) (s\<lparr>rs_userStates := us2\<rparr>))))"

text \<open>
  \<open>recover\<close> replays the checkpoint log and then the sample log into a fresh
  \<open>userStates\<close> and, if both succeed, stores it in the ingester.  The result is the
  error returned, the wrapper afterwards and what was logged.
\<close>

definition recover ::
  "'l logOps \<Rightarrow> 'v codecOps \<Rightarrow> ('us, 'v) storeOps \<Rightarrow> ('us, 'l) wrapper
     \<Rightarrow> fault option \<times> ('us, 'l) wrapper \<times> fault list"
where
  "recover L C S w =
     (let userStates = \<lparr>rs_userStates = newUserStates S, rs_logged = []\<rparr> in
        case recoverRecords L (cfg_dir (w_cfg w)) ''checkpoints'' (unmarshalSeries C)
               (checkpointCallback C S) userStates of
          (Some e, s1) \<Rightarrow> (Some e, w, rs_logged s1)
        | (None, s1) \<Rightarrow>
            (case recoverRecords L (cfg_dir (w_cfg w)) ''samples'' (unmarshalRecord C)
                    (samplesCallback S) s1 of
               (Some e, s2) \<Rightarrow> (Some e, w, rs_logged s2)
             | (None, s2) \<Rightarrow> (None, w\<lparr>w_userStates := rs_userStates s2\<rparr>, rs_logged s2)))"

subsection \<open>newWAL and Stop\<close>

text \<open>
  \<open>newWAL cfg ingester\<close>, with the ingester given by its \<open>userStates\<close>.  The statement
  \<^verbatim>\<open>w.recover(context.Background())\<close> does not use the error that \<open>recover\<close> returns.
  \<^verbatim>\<open>go w.run()\<close> starts the background loop.
\<close>

definition newWAL ::
  "'l logOps \<Rightarrow> 'v codecOps \<Rightarrow> ('us, 'v) storeOps \<Rightarrow> WALConfig \<Rightarrow> 'us \<Rightarrow> fault + ('us, 'l) WAL"
where
  "newWAL L C S cfg ingester =
     (if \<not> cfg_enabled cfg then Inr Noop
      else
        (case walNew L (cfg_dir cfg) ''samples'' of
           Inl err \<Rightarrow> Inl err
         | Inr samples \<Rightarrow>
             (case walNew L (cfg_dir cfg) ''checkpoints'' of
                Inl err \<Rightarrow> Inl err
              | Inr checkpoints \<Rightarrow>
                  (let w = \<lparr>w_cfg = cfg, w_userStates = ingester, w_quitClosed = False,
                            w_running = False, w_lastCheckpointSegment = 0,
                            w_lastSamplesSegment = 0, w_samples = samples,
                            w_checkpoints = checkpoints\<rparr>;
                       w' = (if cfg_recover cfg then fst (snd (recover L C S w)) else w)
                   in Inr (Wrapper (w'\<lparr>w_running := True\<rparr>))))))"


subsection \<open>checkpoint and truncateSamples\<close>

definition checkpointSeries ::
  "'l logOps \<Rightarrow> 'v codecOps \<Rightarrow> ('us, 'v) storeOps \<Rightarrow> 'us \<Rightarrow> string \<Rightarrow> int \<Rightarrow> 'l \<Rightarrow> fault option \<times> 'l"
where
  "checkpointSeries L C S us userID fp checkpoints =
     (case toWireChunks C (seriesChunkDescs S us userID fp) of
        Inl err \<Rightarrow> (Some err, checkpoints)
      | Inr wireChunks \<Rightarrow>
          (case marshalSeries C \<lparr>ser_UserId = userID, ser_Fingerprint = fp,
                                 ser_Labels = seriesLabels S us userID fp,
                                 ser_Chunks = wireChunks\<rparr> of
             Inl err \<Rightarrow> (Some err, checkpoints)
           | Inr buf \<Rightarrow> walLog L checkpoints buf))"

text \<open>
  The nested loops of \<open>checkpoint\<close> over the live series; the waits on the ticker and
  the fingerprint locks leave no trace in the state.
\<close>

fun checkpointLoop ::
  "'l logOps \<Rightarrow> 'v codecOps \<Rightarrow> ('us, 'v) storeOps \<Rightarrow> 'us \<Rightarrow> (string \<times> int) list \<Rightarrow> 'l
     \<Rightarrow> fault option \<times> 'l"
where
  "checkpointLoop L C S us [] checkpoints = (None, checkpoints)"
| "checkpointLoop L C S us ((userID, fp) # rest) checkpoints =
     (case checkpointSeries L C S us userID fp checkpoints of
        (Some err, checkpoints') \<Rightarrow> (Some err, checkpoints')
      | (None, checkpoints') \<Rightarrow> checkpointLoop L C S us rest checkpoints')"

text \<open>
  \<open>checkpoint\<close>: nothing is done when there is no series; \<open>time.NewTicker\<close> panics on
  an interval that is not positive; an error of an append, of \<open>Segments\<close> or of
  \<open>Truncate\<close> is returned; otherwise \<open>lastCheckpointSegment\<close> is set.
\<close>

definition checkpoint ::
  "'l logOps \<Rightarrow> 'v codecOps \<Rightarrow> ('us, 'v) storeOps \<Rightarrow> ('us, 'l) wrapper
     \<Rightarrow> fault option \<times> ('us, 'l) wrapper"
where
  "checkpoint L C S w =
     (let numSeries = int (length (iterSeries S (w_userStates w))) in
        if numSeries = 0 then (None, w)
        else
          (let perSeriesDuration = quo64 (cfg_checkpointDuration (w_cfg w)) numSeries in
             if perSeriesDuration \<le> 0 then (Some (Panic ''non-positive interval for NewTicker''), w)
             else
               (case checkpointLoop L C S (w_userStates w) (iterSeries S (w_userStates w))
                       (w_checkpoints w) of
                  (Some err, l1) \<Rightarrow> (Some err, w\<lparr>w_checkpoints := l1\<rparr>)
                | (None, l1) \<Rightarrow>
                    (case walSegments L l1 of
                       Inl err \<Rightarrow> (Some err, w\<lparr>w_checkpoints := l1\<rparr>)
                     | Inr (firstSeg, lastSeg) \<Rightarrow>
                         (case walTruncate L l1 (w_lastCheckpointSegment w) of
                            (Some err, l2) \<Rightarrow> (Some err, w\<lparr>w_checkpoints := l2\<rparr>)
                          | (None, l2) \<Rightarrow>
                              (None, w\<lparr>w_checkpoints := l2, w_lastCheckpointSegment := lastSeg\<rparr>))))))"

definition truncateSamples :: "'l logOps \<Rightarrow> ('us, 'l) wrapper \<Rightarrow> fault option \<times> ('us, 'l) wrapper" where
  "truncateSamples L w =
     (case walSegments L (w_samples w) of
        Inl err \<Rightarrow> (Some err, w)
      | Inr (firstSeg, lastSeg) \<Rightarrow>
          (case walTruncate L (w_samples w) (w_lastSamplesSegment w) of
             (Some err, l1) \<Rightarrow> (Some err, w\<lparr>w_samples := l1\<rparr>)
           | (None, l1) \<Rightarrow> (None, w\<lparr>w_samples := l1, w_lastSamplesSegment := lastSeg\<rparr>)))"

section \<open>Reference notions and example inputs\<close>

subsection \<open>The last step before the next day\<close>

text \<open>
  What the comment on \<open>nextDayBoundary\<close> and the specification ask for, written out
  from their words and not from the code: the largest time strictly below the next
  day boundary that differs from \<open>t\<close> by a multiple of \<open>step\<close>.
\<close>

definition lastStepBeforeNextDay :: "int \<Rightarrow> int \<Rightarrow> int" where
  "lastStepBeforeNextDay t step =
     (let nextDay = (t div millisecondPerDay + 1) * millisecondPerDay
      in nextDay - 1 - (nextDay - 1 - t) mod step)"

subsection \<open>Example queries and responses\<close>

text \<open>Two days from midnight in steps of seven minutes.\<close>

definition twoDays :: queryRangeRequest where
  "twoDays = \<lparr>req_path = ''/api/v1/query_range'', req_start = 0, req_end = 172800000,
               req_step = 420000, req_query = ''up''\<rparr>"

text \<open>The same query started five minutes before the end of the first day.\<close>

definition lateStart :: queryRangeRequest where
  "lateStart = \<lparr>req_path = ''/api/v1/query_range'', req_start = 86100000, req_end = 172800000,
                 req_step = 420000, req_query = ''up''\<rparr>"

text \<open>A successful response that holds a matrix of one stream.\<close>

definition matrixResponse :: "int \<Rightarrow> 'v SampleStream \<Rightarrow> 'v response" where
  "matrixResponse start stream =
     \<lparr>resp_req = \<lparr>req_path = [], req_start = start, req_end = start + 1, req_step = 1,
                  req_query = []\<rparr>,
      resp_resp = Some \<lparr>Data = \<lparr>ResultType = ValMatrix, Result = Matrix [Some stream]\<rparr>\<rparr>,
      resp_err = None\<rparr>"

text \<open>
  Two streams under the empty label set, and two orders of arrival for the two
  sub-queries of \<open>twoDays\<close>: in \<open>failingFirst\<close> the second sub-query fails and its
  response arrives first; in \<open>lateFirst\<close> both succeed and the later one arrives first.
\<close>

definition stream01 :: "real SampleStream" where
  "stream01 = \<lparr>ss_Metric = Map.empty,
      ss_Values = [\<lparr>sp_Timestamp = 0, sp_Value = 0\<rparr>, \<lparr>sp_Timestamp = 1, sp_Value = 1\<rparr>]\<rparr>"

definition stream23 :: "real SampleStream" where
  "stream23 = \<lparr>ss_Metric = Map.empty,
      ss_Values = [\<lparr>sp_Timestamp = 2, sp_Value = 2\<rparr>, \<lparr>sp_Timestamp = 3, sp_Value = 3\<rparr>]\<rparr>"

definition failingFirst :: "nat \<Rightarrow> real response" where
  "failingFirst i =
     (if i = 0
      then \<lparr>resp_req = twoDays\<lparr>req_start := 86400000\<rparr>, resp_resp = None,
            resp_err = Some (Failure ''downstream failed'')\<rparr>
      else matrixResponse 0 stream01)"

definition lateFirst :: "nat \<Rightarrow> real response" where
  "lateFirst i = (if i = 0 then matrixResponse 86400000 stream23 else matrixResponse 0 stream01)"

subsection \<open>Example collaborators of the write-ahead log\<close>

text \<open>The last segment that \<open>Segments\<close> reports for a log, if it reports one.\<close>

definition observedLast :: "'l logOps \<Rightarrow> 'l \<Rightarrow> int option" where
  "observedLast L l =
     (case walSegments L l of Inl err \<Rightarrow> None | Inr (firstSeg, lastSeg) \<Rightarrow> Some lastSeg)"

text \<open>
  A segmented log as the specification describes it: a range of segment identifiers
  and the records appended; \<open>Truncate\<close> drops the segments below its argument, or
  fails with \<open>truncateErr\<close>; \<open>disk\<close> answers the attempts to read a log directory.
\<close>

record segLog =
  sl_first :: int
  sl_last :: int
  sl_records :: "bytes list"
  sl_closed :: bool

definition segLogOps ::
  "(string \<Rightarrow> string \<Rightarrow> fault + bytes list \<times> fault option) \<Rightarrow> fault option \<Rightarrow> segLog logOps"
where
  "segLogOps disk truncateErr =
     \<lparr>walNew = (\<lambda>dir name. Inr \<lparr>sl_first = 0, sl_last = 0, sl_records = [], sl_closed = False\<rparr>),
      walLog = (\<lambda>l b. (None, l\<lparr>sl_records := sl_records l @ [b]\<rparr>)),
      walSegments = (\<lambda>l. Inr (sl_first l, sl_last l)),
      walTruncate = (\<lambda>l i. case truncateErr of
                              Some e \<Rightarrow> (Some e, l)
                            | None \<Rightarrow> (None, l\<lparr>sl_first := max (sl_first l) i\<rparr>)),
      walClose = (\<lambda>l. l\<lparr>sl_closed := True\<rparr>),
      openSegments = disk\<rparr>"

text \<open>
  Modelled from the spec: the ingester's memory store (\<open>userStates\<close>, \<open>memorySeries\<close>),
  whose code is not among the sources.  A series is installed under (tenant,
  fingerprint) and holds its labels and samples; appending fails for a sample that is
  out of order or a duplicate.
\<close>

record 'v memSeries =
  ms_labels :: LabelPairs
  ms_samples :: "'v SamplePair list"

type_synonym 'v memStore = "((string \<times> int) \<times> 'v memSeries) list"

definition memAdd ::
  "'v memStore \<Rightarrow> string \<Rightarrow> int \<Rightarrow> 'v SamplePair \<Rightarrow> fault option \<times> 'v memStore"
where
  "memAdd us uid fp p =
     (case map_of us (uid, fp) of
        None \<Rightarrow> (Some (Failure ''no such series''), us)
      | Some series \<Rightarrow>
          if ms_samples series \<noteq> [] \<and> sp_Timestamp p \<le> sp_Timestamp (last (ms_samples series))
          then (Some (Failure ''sample out of order or duplicate''), us)
          else (None, AList.update (uid, fp) (series\<lparr>ms_samples := ms_samples series @ [p]\<rparr>) us))"

definition memStoreOps :: "('v memStore, 'v) storeOps" where
  "memStoreOps =
     \<lparr>newUserStates = [],
      getOrCreate = (\<lambda>us uid. Inr us),
      fpGet = (\<lambda>us uid fp. map_of us (uid, fp) \<noteq> None),
      createSeriesWithFingerprint =
        (\<lambda>us uid fp labels. Inr (AList.update (uid, fp) \<lparr>ms_labels = labels, ms_samples = []\<rparr> us)),
      seriesAdd = memAdd,
      setChunks = (\<lambda>us uid fp descs. (None, us)),
      iterSeries = map fst,
      seriesChunkDescs = (\<lambda>us uid fp. []),
      seriesLabels =
        (\<lambda>us uid fp. case map_of us (uid, fp) of None \<Rightarrow> [] | Some series \<Rightarrow> ms_labels series)\<rparr>"

text \<open>A codec given by its two decoders; chunk lists are empty.\<close>

definition tableCodec ::
  "(bytes \<Rightarrow> fault + Series) \<Rightarrow> (bytes \<Rightarrow> fault + 'v Record) \<Rightarrow> 'v codecOps"
where
  "tableCodec decodeSeries decodeRecord =
     \<lparr>marshalSeries = (\<lambda>series. Inr []),
      unmarshalSeries = decodeSeries,
      unmarshalRecord = decodeRecord,
      toWireChunks = (\<lambda>descs. Inr []),
      fromWireChunks = (\<lambda>chunks. Inr [])\<rparr>"

definition noCodec :: "real codecOps" where
  "noCodec = tableCodec (\<lambda>b. Inl (Failure ''cannot decode'')) (\<lambda>b. Inl (Failure ''cannot decode''))"

text \<open>A log directory that cannot be read.\<close>

definition brokenDisk :: "string \<Rightarrow> string \<Rightarrow> fault + bytes list \<times> fault option" where
  "brokenDisk dir name = Inl (Failure ''input/output error'')"

text \<open>A store with one series, and a record with a sample for another series first.\<close>

definition oneSeries :: "real memStore" where
  "oneSeries = [((''tenant'', 2), \<lparr>ms_labels = [(''job'', ''b'')], ms_samples = []\<rparr>)]"

definition strayFirst :: "real Record" where
  "strayFirst =
     \<lparr>rec_UserId = ''tenant'', rec_Labels = [],
      rec_Samples = [\<lparr>smp_Fingerprint = 1, smp_Timestamp = 10, smp_Value = 1\<rparr>,
                     \<lparr>smp_Fingerprint = 2, smp_Timestamp = 20, smp_Value = 2\<rparr>]\<rparr>"

text \<open>A configuration with the log and recovery switched on, and the wrapper built for it.\<close>

definition recoverCfg :: WALConfig where
  "recoverCfg = \<lparr>cfg_enabled = True, cfg_recover = True, cfg_dir = ''/data/wal'',
                 cfg_checkpointDuration = 3600000000000\<rparr>"

definition freshWrapper :: "(real memStore, segLog) wrapper" where
  "freshWrapper =
     \<lparr>w_cfg = recoverCfg, w_userStates = [], w_quitClosed = False, w_running = False,
      w_lastCheckpointSegment = 0, w_lastSamplesSegment = 0,
      w_samples = \<lparr>sl_first = 0, sl_last = 0, sl_records = [], sl_closed = False\<rparr>,
      w_checkpoints = \<lparr>sl_first = 0, sl_last = 0, sl_records = [], sl_closed = False\<rparr>\<rparr>"

text \<open>A store with one live series, and a running wrapper over a given store.\<close>

definition liveSeries :: "real memStore" where
  "liveSeries = [((''tenant'', 1), \<lparr>ms_labels = [(''job'', ''a'')], ms_samples = []\<rparr>)]"

definition runningWrapper :: "real memStore \<Rightarrow> (real memStore, segLog) wrapper" where
  "runningWrapper us =
     \<lparr>w_cfg = recoverCfg, w_userStates = us, w_quitClosed = False, w_running = True,
      w_lastCheckpointSegment = 2, w_lastSamplesSegment = 4,
      w_samples = \<lparr>sl_first = 4, sl_last = 9, sl_records = [], sl_closed = False\<rparr>,
      w_checkpoints = \<lparr>sl_first = 2, sl_last = 5, sl_records = [], sl_closed = False\<rparr>\<rparr>"

section \<open>Properties of the splitter\<close>

lemmas int64_defs = wrap64_def add64_def sub64_def mul64_def quo64_def rem64_def
  millisecondPerDay_def signed_divide_int_def signed_modulo_int_def

lemma nextDayBoundary_midnight: "nextDayBoundary 0 420000 = Inr 85980000"
  by (simp add: nextDayBoundary_def int64_defs)

lemma nextDayBoundary_late: "nextDayBoundary 86100000 420000 = Inr 85980000"
  by (simp add: nextDayBoundary_def int64_defs)

lemma nextDayBoundary_second_day: "nextDayBoundary 86400000 420000 = Inr 172380000"
  by (simp add: nextDayBoundary_def int64_defs)

text \<open>
  \<open>lastStepBeforeNextDay\<close> is what its name says: below the next day boundary, a
  multiple of \<open>step\<close> away from \<open>t\<close>, and the largest such time.
\<close>

lemma lastStepBeforeNextDay_spec:
  fixes t step :: int
  assumes "0 < step"
  defines "nextDay \<equiv> (t div millisecondPerDay + 1) * millisecondPerDay"
  shows "lastStepBeforeNextDay t step < nextDay"
    and "(lastStepBeforeNextDay t step - t) mod step = 0"
    and "y < nextDay \<Longrightarrow> (y - t) mod step = 0 \<Longrightarrow> y \<le> lastStepBeforeNextDay t step"
proof -
  let ?L = "lastStepBeforeNextDay t step"
  have L: "?L = nextDay - 1 - (nextDay - 1 - t) mod step"
    by (simp add: lastStepBeforeNextDay_def nextDay_def Let_def)
  have m0: "0 \<le> (nextDay - 1 - t) mod step" and m1: "(nextDay - 1 - t) mod step < step"
    using assms by simp_all
  show "?L < nextDay" using L m0 by linarith
  have "?L - t = (nextDay - 1 - t) - (nextDay - 1 - t) mod step" using L by simp
  also have "\<dots> = (nextDay - 1 - t) div step * step"
    by (simp add: minus_mod_eq_div_mult)
  finally show c: "(?L - t) mod step = 0" by simp
  assume y: "y < nextDay" "(y - t) mod step = 0"
  show "y \<le> ?L"
  proof (rule ccontr)
    assume "\<not> y \<le> ?L"
    then have gt: "?L < y" by simp
    have "step dvd (y - t)" "step dvd (?L - t)"
      using c y(2) by (simp_all add: mod_0_imp_dvd)
    then have "step dvd ((y - t) - (?L - t))" by (rule dvd_diff)
    then have "step dvd (y - ?L)" by simp
    then have "step \<le> y - ?L" using gt by (simp add: zdvd_imp_le)
    then show False using L m1 y(1) by linarith
  qed
qed

lemma wrap64_id:
  "- 9223372036854775808 \<le> x \<Longrightarrow> x < 9223372036854775808 \<Longrightarrow> wrap64 x = x"
  unfolding wrap64_def by (simp add: mod_pos_pos_trivial)

text \<open>
  Away from overflow, a time \<open>t \<ge> 0\<close> and a step \<open>> 0\<close> give the value of the
  formula \<open>((t / day) + 1) * day - (step - (t mod day) mod step)\<close>.
\<close>

lemma nextDayBoundary_formula:
  assumes "0 \<le> t" "0 < step" "t < 2 ^ 62" "step < 2 ^ 62"
  shows "nextDayBoundary t step =
    Inr ((t div millisecondPerDay + 1) * millisecondPerDay
          - (step - t mod millisecondPerDay mod step))"
proof -
  have d: "millisecondPerDay = 86400000" by (simp add: millisecondPerDay_def)
  have tb: "t < 4611686018427387904" and sb: "step < 4611686018427387904"
    using assms by simp_all
  have sd: "t sdiv millisecondPerDay = t div millisecondPerDay"
    using assms by (simp add: signed_divide_int_def d sgn_if)
  have sm: "t smod millisecondPerDay = t mod millisecondPerDay"
    using assms by (simp add: signed_modulo_int_def d sgn_if)
  have r0: "0 \<le> t mod millisecondPerDay" by (simp add: d)
  have sm2: "(t mod millisecondPerDay) smod step = t mod millisecondPerDay mod step"
    using assms r0 by (auto simp add: signed_modulo_int_def sgn_if)
  have m0: "0 \<le> t mod millisecondPerDay mod step" "t mod millisecondPerDay mod step < step"
    using assms by simp_all
  have q0: "0 \<le> t div millisecondPerDay" using assms by (simp add: d pos_imp_zdiv_nonneg_iff)
  have q2: "t div millisecondPerDay * millisecondPerDay \<le> t"
    by (simp add: d)
  have q1: "t div millisecondPerDay \<le> t" using q0 q2 unfolding d by linarith
  have D: "(t div millisecondPerDay + 1) * millisecondPerDay
             = t div millisecondPerDay * millisecondPerDay + 86400000"
    by (simp add: d algebra_simps)
  have q3: "0 \<le> t div millisecondPerDay * millisecondPerDay"
    using q0 by (simp add: d)
  have w1: "wrap64 (t div millisecondPerDay) = t div millisecondPerDay"
    using q0 q1 tb by (intro wrap64_id) linarith+
  have w2: "wrap64 (t div millisecondPerDay + 1) = t div millisecondPerDay + 1"
    using q0 q1 tb by (intro wrap64_id) linarith+
  have w3: "wrap64 ((t div millisecondPerDay + 1) * millisecondPerDay)
              = (t div millisecondPerDay + 1) * millisecondPerDay"
    using q3 q2 tb unfolding D by (intro wrap64_id) linarith+
  have w4: "wrap64 (step - t mod millisecondPerDay mod step) = step - t mod millisecondPerDay mod step"
    using m0 sb by (intro wrap64_id) linarith+
  have w5: "wrap64 ((t div millisecondPerDay + 1) * millisecondPerDay
                      - (step - t mod millisecondPerDay mod step))
       = (t div millisecondPerDay + 1) * millisecondPerDay
           - (step - t mod millisecondPerDay mod step)"
    using q3 q2 m0 tb sb unfolding D by (intro wrap64_id) linarith+
  show ?thesis
    using assms(2)
    by (simp add: nextDayBoundary_def Let_def add64_def sub64_def mul64_def quo64_def rem64_def
        sd sm sm2 w1 w2 w3 w4 w5)
qed

text \<open>Where the step divides a day, \<open>nextDayBoundary\<close> is the last step before the next day.\<close>

lemma nextDayBoundary_aligned:
  assumes "0 \<le> t" "0 < step" "t < 2 ^ 62" "step dvd millisecondPerDay"
  shows "nextDayBoundary t step = Inr (lastStepBeforeNextDay t step)"
proof -
  have d: "millisecondPerDay = 86400000" by (simp add: millisecondPerDay_def)
  have "step \<le> millisecondPerDay" using assms by (simp add: d zdvd_imp_le)
  then have s: "step < 2 ^ 62" by (simp add: d)
  let ?D = "(t div millisecondPerDay + 1) * millisecondPerDay"
  let ?m = "t mod millisecondPerDay mod step"
  have m: "?m = t mod step" using assms(4) by (simp add: mod_mod_cancel)
  have dv: "step dvd ?D" using assms(4) by simp
  have b: "0 \<le> step - 1 - t mod step" "step - 1 - t mod step < step"
    using assms(2) pos_mod_bound[of step t] pos_mod_sign[of step t] by linarith+
  have "?D - 1 - t = (step - 1 - t mod step) + (?D - step - (t - t mod step))"
    by simp
  moreover have "step dvd (?D - step - (t - t mod step))"
    using dv by (simp add: dvd_diff minus_mod_eq_div_mult)
  ultimately have "(?D - 1 - t) mod step = (step - 1 - t mod step) mod step"
    by (metis mod_add_right_eq dvd_imp_mod_0 add.right_neutral)
  also have "\<dots> = step - 1 - t mod step"
    using b by simp
  finally have "lastStepBeforeNextDay t step = ?D - (step - ?m)"
    by (simp add: lastStepBeforeNextDay_def Let_def m)
  then show ?thesis using nextDayBoundary_formula[OF assms(1,2,3) s] by simp
qed

text \<open>
  Where the step divides a day, the times are not negative and the end is below
  \<open>2^61\<close>, the loop of \<open>splitQuery\<close> returns, no sub-query is empty, and every time is
  sampled by exactly one sub-query if it is a sample of the query and by none
  otherwise.
\<close>

lemma next_day_bounds:
  fixes s :: int
  shows "s < (s div millisecondPerDay + 1) * millisecondPerDay"
    and "(s div millisecondPerDay + 1) * millisecondPerDay \<le> s + 86400000"
proof -
  have d: "millisecondPerDay = 86400000" by (simp add: millisecondPerDay_def)
  have e1: "s = s div 86400000 * 86400000 + s mod 86400000" by simp
  have e2: "0 \<le> s mod 86400000" "s mod 86400000 < 86400000" by simp_all
  have D: "(s div millisecondPerDay + 1) * millisecondPerDay = s div 86400000 * 86400000 + 86400000"
    by (simp add: d algebra_simps)
  show "s < (s div millisecondPerDay + 1) * millisecondPerDay"
    unfolding D using e1 e2 by linarith
  show "(s div millisecondPerDay + 1) * millisecondPerDay \<le> s + 86400000"
    unfolding D using e1 e2 by linarith
qed

lemma lastStepBeforeNextDay_ge:
  fixes s step :: int
  assumes "0 < step" "step dvd millisecondPerDay" "0 \<le> s" "s < 2 ^ 61"
  shows "s \<le> lastStepBeforeNextDay s step"
proof -
  have "(s - s) mod step = 0" by simp
  then show ?thesis
    by (rule lastStepBeforeNextDay_spec(3) [OF assms(1) next_day_bounds(1)])
qed

lemma lastStepBeforeNextDay_upper:
  fixes s step :: int
  assumes "0 < step"
  shows "lastStepBeforeNextDay s step < s + 86400000"
proof -
  have "lastStepBeforeNextDay s step < (s div millisecondPerDay + 1) * millisecondPerDay"
    by (rule lastStepBeforeNextDay_spec(1) [OF assms(1)])
  then show ?thesis using next_day_bounds(2) [of s] by linarith
qed

lemma nextDayBoundary_step:
  assumes "0 < step" "step dvd millisecondPerDay" "0 \<le> s" "s < 2 ^ 61"
  shows "\<exists>ndb. nextDayBoundary s step = Inr ndb \<and> s \<le> ndb \<and> (ndb - s) mod step = 0
    \<and> ndb < s + 86400000 \<and> add64 ndb step = ndb + step"
proof -
  let ?ndb = "lastStepBeforeNextDay s step"
  have d: "millisecondPerDay = 86400000" by (simp add: millisecondPerDay_def)
  have s62: "s < 2 ^ 62"
  proof -
    have "(2::int) ^ 61 \<le> 2 ^ 62" by simp
    then show ?thesis using assms(4) by linarith
  qed
  have 1: "nextDayBoundary s step = Inr ?ndb"
    by (rule nextDayBoundary_aligned [OF assms(3) assms(1) s62 assms(2)])
  have 2: "s \<le> ?ndb" by (rule lastStepBeforeNextDay_ge [OF assms])
  have 3: "(?ndb - s) mod step = 0"
    by (rule lastStepBeforeNextDay_spec(2) [OF assms(1)])
  have 4: "?ndb < s + 86400000" by (rule lastStepBeforeNextDay_upper [OF assms(1)])
  have "step dvd 86400000" using assms(2) unfolding d .
  then have sb: "step \<le> 86400000" by (rule zdvd_imp_le) simp
  have tb: "s < 2305843009213693952" using assms(4) by simp
  have 5: "add64 ?ndb step = ?ndb + step"
    unfolding add64_def using 2 4 sb tb assms(1,3) by (intro wrap64_id) linarith+
  show ?thesis
  proof (intro exI conjI)
    show "nextDayBoundary s step = Inr ?ndb" by (fact 1)
    show "s \<le> ?ndb" by (fact 2)
    show "(?ndb - s) mod step = 0" by (fact 3)
    show "?ndb < s + 86400000" by (fact 4)
    show "add64 ?ndb step = ?ndb + step" by (fact 5)
  qed
qed

lemma coverCount_Cons:
  "coverCount (q # subs) x = (if inStepSamples q x then 1 else 0) + coverCount subs x"
  by (simp add: coverCount_def)

lemma splitLoop_partitions:
  assumes st: "0 < req_step r" and dv: "req_step r dvd millisecondPerDay"
    and eb: "req_end r < 2 ^ 61"
  shows "0 \<le> s \<Longrightarrow> s < req_end r \<Longrightarrow>
    \<exists>subs. splitLoop r s acc = Some (Inr (acc @ subs))
      \<and> (\<forall>q\<in>set subs. req_start q \<le> req_end q)
      \<and> (\<forall>x. coverCount subs x =
            (if s \<le> x \<and> x \<le> req_end r \<and> (x - s) mod req_step r = 0 then 1 else 0))"
proof (induction "nat (req_end r - s)" arbitrary: s acc rule: less_induct)
  case less
  let ?step = "req_step r"
  have s61: "s < 2 ^ 61" using less.prems eb by linarith
  from nextDayBoundary_step [OF st dv less.prems(1) s61]
  obtain ndb where all: "nextDayBoundary s ?step = Inr ndb \<and> s \<le> ndb \<and> (ndb - s) mod ?step = 0
    \<and> ndb < s + 86400000 \<and> add64 ndb ?step = ndb + ?step" ..
  have n1: "nextDayBoundary s ?step = Inr ndb" using all by (rule conjunct1)
  have n2: "s \<le> ndb" using all by (elim conjE)
  have n3: "(ndb - s) mod ?step = 0" using all by (elim conjE)
  have n5: "add64 ndb ?step = ndb + ?step" using all by (elim conjE)
  let ?sub = "\<lambda>e. \<lparr>req_path = req_path r, req_start = s, req_end = e,
                    req_step = req_step r, req_query = req_query r\<rparr>"
  show ?case
  proof (cases "ndb + ?step \<ge> req_end r")
    case True
    have "splitLoop r s acc = splitLoop r (ndb + ?step) (acc @ [?sub (req_end r)])"
      using less.prems(2) True by (subst splitLoop.simps) (simp add: Let_def n1 n5)
    also have "\<dots> = Some (Inr (acc @ [?sub (req_end r)]))"
      using True by (subst splitLoop.simps) simp
    finally have 1: "splitLoop r s acc = Some (Inr (acc @ [?sub (req_end r)]))" .
    have 2: "\<forall>q\<in>set [?sub (req_end r)]. req_start q \<le> req_end q"
      using less.prems(2) by simp
    have 3: "\<forall>x. coverCount [?sub (req_end r)] x =
            (if s \<le> x \<and> x \<le> req_end r \<and> (x - s) mod req_step r = 0 then 1 else 0)"
      by (simp add: coverCount_def inStepSamples_def)
    show ?thesis
      by (rule exI [of _ "[?sub (req_end r)]"]) (intro conjI 1 2 3)
  next
    case False
    then have lt: "ndb + ?step < req_end r" by simp
    have step1: "splitLoop r s acc = splitLoop r (ndb + ?step) (acc @ [?sub ndb])"
      using less.prems(2) False by (subst splitLoop.simps) (simp add: Let_def n1 n5)
    have m: "nat (req_end r - (ndb + ?step)) < nat (req_end r - s)"
      using n2 st less.prems(2) by linarith
    have nn: "0 \<le> ndb + ?step" using n2 st less.prems(1) by linarith
    from less.hyps [OF m nn lt, of "acc @ [?sub ndb]"]
    obtain subs where ih:
      "splitLoop r (ndb + ?step) (acc @ [?sub ndb]) = Some (Inr ((acc @ [?sub ndb]) @ subs))
      \<and> (\<forall>q\<in>set subs. req_start q \<le> req_end q)
      \<and> (\<forall>x. coverCount subs x =
            (if ndb + ?step \<le> x \<and> x \<le> req_end r \<and> (x - (ndb + ?step)) mod ?step = 0 then 1 else 0))" ..
    have i1: "splitLoop r (ndb + ?step) (acc @ [?sub ndb]) = Some (Inr ((acc @ [?sub ndb]) @ subs))"
      using ih by (rule conjunct1)
    have i2: "\<forall>q\<in>set subs. req_start q \<le> req_end q" using ih by (elim conjE)
    have i3: "coverCount subs x =
            (if ndb + ?step \<le> x \<and> x \<le> req_end r \<and> (x - (ndb + ?step)) mod ?step = 0 then 1 else 0)" for x
      using ih by (elim conjE allE [of _ x])
    have 1: "splitLoop r s acc = Some (Inr (acc @ (?sub ndb # subs)))"
      using step1 i1 by simp
    have 2: "\<forall>q\<in>set (?sub ndb # subs). req_start q \<le> req_end q"
      using i2 n2 by simp
    have 3: "\<forall>x. coverCount (?sub ndb # subs) x =
            (if s \<le> x \<and> x \<le> req_end r \<and> (x - s) mod ?step = 0 then 1 else 0)"
    proof
      fix x
      have al: "(x - (ndb + ?step)) mod ?step = 0 \<longleftrightarrow> (x - s) mod ?step = 0"
      proof -
        have "?step dvd (ndb - s)" using n3 by (simp add: mod_0_imp_dvd)
        then have "?step dvd ((ndb - s) + ?step)" by (rule dvd_add) simp
        then have dd: "?step dvd (ndb + ?step - s)" by (simp add: algebra_simps)
        have "x - s = (x - (ndb + ?step)) + (ndb + ?step - s)" by simp
        then have "?step dvd (x - s) \<longleftrightarrow> ?step dvd (x - (ndb + ?step))"
          using dvd_add_left_iff [OF dd, of "x - (ndb + ?step)"] by simp
        then show ?thesis by (simp add: dvd_eq_mod_eq_0)
      qed
      have gap: "ndb + ?step \<le> x" if a: "(x - s) mod ?step = 0" "ndb < x"
      proof -
        have "?step dvd (x - s)" "?step dvd (ndb - s)" using a(1) n3 by (simp_all add: mod_0_imp_dvd)
        then have "?step dvd ((x - s) - (ndb - s))" by (rule dvd_diff)
        then have "?step dvd (x - ndb)" by simp
        then have "?step \<le> x - ndb" using a(2) by (simp add: zdvd_imp_le)
        then show ?thesis by simp
      qed
      have c1: "inStepSamples (?sub ndb) x \<longleftrightarrow> s \<le> x \<and> x \<le> ndb \<and> (x - s) mod ?step = 0"
        by (simp add: inStepSamples_def)
      have c2: "coverCount subs x =
            (if ndb + ?step \<le> x \<and> x \<le> req_end r \<and> (x - s) mod ?step = 0 then 1 else 0)"
        using i3 [of x] al by simp
      show "coverCount (?sub ndb # subs) x =
            (if s \<le> x \<and> x \<le> req_end r \<and> (x - s) mod ?step = 0 then 1 else 0)"
      proof (cases "(x - s) mod ?step = 0")
        case False
        then show ?thesis unfolding coverCount_Cons c1 c2 by simp
      next
        case True
        show ?thesis
        proof (cases "x \<le> ndb")
          case le: True
          then have "\<not> ndb + ?step \<le> x" "x \<le> req_end r" using st lt by linarith+
          then show ?thesis unfolding coverCount_Cons c1 c2 using True le by simp
        next
          case gt: False
          then have g: "ndb + ?step \<le> x" using gap True by simp
          then have "s \<le> x" using n2 st by linarith
          then show ?thesis unfolding coverCount_Cons c1 c2 using True gt g by simp
        qed
      qed
    qed
    show ?thesis
      by (rule exI [of _ "?sub ndb # subs"]) (intro conjI 1 2 3)
  qed
qed

lemma splitQuery_partitions_if_step_divides_day:
  assumes "0 < req_step r" "req_step r dvd millisecondPerDay"
    "0 \<le> req_start r" "req_start r < req_end r" "req_end r < 2 ^ 61"
  shows "\<exists>subs. splitQuery r = Some (Inr subs)
      \<and> (\<forall>q\<in>set subs. req_start q \<le> req_end q)
      \<and> (\<forall>x. coverCount subs x = (if x \<in> stepSamples r then 1 else 0))"
  using splitLoop_partitions [OF assms(1,2,5,3,4), of "[]"]
  by (simp add: splitQuery_def stepSamples_def inStepSamples_def)

lemma splitQuery_twoDays:
  "splitQuery twoDays =
     Some (Inr [twoDays\<lparr>req_end := 85980000\<rparr>, twoDays\<lparr>req_start := 86400000\<rparr>])"
  unfolding splitQuery_def
  apply (subst splitLoop.simps)
  apply (simp add: twoDays_def nextDayBoundary_midnight add64_def wrap64_def)
  apply (subst splitLoop.simps)
  apply (simp add: nextDayBoundary_second_day add64_def wrap64_def)
  apply (subst splitLoop.simps)
  apply simp
  done

lemma splitQuery_lateStart:
  "splitQuery lateStart =
     Some (Inr [lateStart\<lparr>req_end := 85980000\<rparr>, lateStart\<lparr>req_start := 86400000\<rparr>])"
  unfolding splitQuery_def
  apply (subst splitLoop.simps)
  apply (simp add: lateStart_def nextDayBoundary_late add64_def wrap64_def)
  apply (subst splitLoop.simps)
  apply (simp add: nextDayBoundary_second_day add64_def wrap64_def)
  apply (subst splitLoop.simps)
  apply simp
  done

text \<open>
  C1.  Splitter coverage fails where the step does not divide a day.  For two days in
  steps of seven minutes, \<open>splitQuery\<close> returns the sub-queries [0, 85980000] and
  [86400000, 172800000]: the sample 86100000 of the query is in neither, and the
  second sub-query samples 86400000, which is no sample of the query.
\<close>

theorem splitQuery_coverage_fails:
  "splitQuery twoDays =
     Some (Inr [twoDays\<lparr>req_end := 85980000\<rparr>, twoDays\<lparr>req_start := 86400000\<rparr>])
   \<and> 86100000 \<in> stepSamples twoDays
   \<and> 86100000 \<notin> stepSamples (twoDays\<lparr>req_end := 85980000\<rparr>)
                    \<union> stepSamples (twoDays\<lparr>req_start := 86400000\<rparr>)
   \<and> 86400000 \<in> stepSamples (twoDays\<lparr>req_start := 86400000\<rparr>)
   \<and> 86400000 \<notin> stepSamples twoDays"
  by (simp add: splitQuery_twoDays) (simp add: stepSamples_def inStepSamples_def twoDays_def)

text \<open>
  C8.  \<open>splitQuery\<close> emits an empty sub-query: for the query from 86100000 to 172800000
  in steps of seven minutes (positive step, start before end) the first sub-query is
  [86100000, 85980000], whose start lies after its end, so it has no sample.
\<close>

theorem splitQuery_emits_empty_subquery:
  "splitQuery lateStart =
     Some (Inr [lateStart\<lparr>req_end := 85980000\<rparr>, lateStart\<lparr>req_start := 86400000\<rparr>])
   \<and> req_step lateStart > 0 \<and> req_start lateStart < req_end lateStart
   \<and> req_start (lateStart\<lparr>req_end := 85980000\<rparr>) > req_end (lateStart\<lparr>req_end := 85980000\<rparr>)
   \<and> stepSamples (lateStart\<lparr>req_end := 85980000\<rparr>) = {}"
  by (simp add: splitQuery_lateStart) (auto simp add: stepSamples_def inStepSamples_def lateStart_def)

text \<open>
  C6.  At \<open>t = 0\<close> and a step of seven minutes \<open>nextDayBoundary\<close> returns 85980000,
  which is not congruent to \<open>t\<close> modulo the step; the last step before the next day
  is 86100000.
\<close>

theorem nextDayBoundary_not_last_step:
  "nextDayBoundary 0 420000 = Inr 85980000
   \<and> (85980000 - 0) mod 420000 \<noteq> (0::int)
   \<and> lastStepBeforeNextDay 0 420000 = 86100000"
  by (simp add: nextDayBoundary_midnight lastStepBeforeNextDay_def millisecondPerDay_def)

text \<open>
  C10.  For a query whose start is not before its end, \<open>splitQuery\<close> returns the empty
  list, and \<open>Do\<close> returns the empty response with no error and hands no request to
  the downstream, whatever the channel would deliver.
\<close>

theorem Do_empty_range:
  assumes "req_start r \<ge> req_end r"
  shows "splitQuery r = Some (Inr []) \<and> Do String recv r = Some (Inr emptyApiResponse, [])"
proof -
  have s: "splitQuery r = Some (Inr [])"
    unfolding splitQuery_def using assms by (subst splitLoop.simps) simp
  show ?thesis by (simp add: s Do_def received_def mergeStep_def)
qed

theorem Do_empty_range_witness:
  "req_start (twoDays\<lparr>req_start := 172800000\<rparr>) \<ge> req_end (twoDays\<lparr>req_start := 172800000\<rparr>)
   \<and> splitQuery (twoDays\<lparr>req_start := 172800000\<rparr>) = Some (Inr [])
   \<and> Do (\<lambda>m. ''{}'')
        (\<lambda>i. \<lparr>resp_req = twoDays, resp_resp = None, resp_err = Some (Failure ''unreachable'')\<rparr>)
        (twoDays\<lparr>req_start := 172800000\<rparr>)
      = Some (Inr (emptyApiResponse :: real apiResponse), [])"
  using Do_empty_range [of "twoDays\<lparr>req_start := 172800000\<rparr>" "\<lambda>m. ''{}''"
       "\<lambda>i. \<lparr>resp_req = twoDays, resp_resp = None,
              resp_err = Some (Failure ''unreachable'')\<rparr> :: real response"]
  by (simp add: twoDays_def)

section \<open>Properties of the gathering loop\<close>

text \<open>
  Whatever the order of arrival, the loop keeps the responses without error in their
  order of arrival and the first error that arrived.
\<close>

lemma gather_spec:
  "gather arrivals responses firstErr cancels =
     (responses @ filter (\<lambda>x. resp_err x = None) arrivals,
      (case firstErr of
         Some e \<Rightarrow> Some e
       | None \<Rightarrow> (case filter (\<lambda>x. resp_err x \<noteq> None) arrivals of
                    [] \<Rightarrow> None
                  | x # xs \<Rightarrow> resp_err x)),
      (if firstErr = None \<and> filter (\<lambda>x. resp_err x \<noteq> None) arrivals \<noteq> []
       then Suc cancels else cancels))"
  by (induction arrivals arbitrary: responses firstErr cancels) (auto split: option.splits list.splits)

lemma gather_no_error:
  "\<forall>y\<in>set xs. resp_err y = None \<Longrightarrow> gather xs rs fe c = (rs @ xs, fe, c)"
  by (induction xs arbitrary: rs) simp_all

lemma gather_after_error:
  "gather xs rs (Some e) c = (rs @ filter (\<lambda>y. resp_err y = None) xs, Some e, c)"
  by (induction xs arbitrary: rs) (simp_all split: option.split)

lemma gather_append:
  "gather (xs @ ys) rs fe c = (case gather xs rs fe c of (rs', fe', c') \<Rightarrow> gather ys rs' fe' c')"
  by (induction xs arbitrary: rs fe c) (auto split: option.split)

text \<open>
  C9.  \<open>Do\<close> hands every sub-query of \<open>splitQuery\<close> to the downstream and receives
  one response per sub-query, in an arbitrary order of arrival (\<open>recv\<close>).  If a
  response with an error arrives, then up to the first such response nothing is
  cancelled; at it the error is recorded and \<open>cancel\<close> is called, once; the loop goes on
  through the responses after it, which change neither the recorded error nor the
  number of cancellations; and \<open>Do\<close> fails with that first error.  If no response has
  an error, nothing is cancelled, and all responses go to the merge step, whose result
  \<open>Do\<close> returns.
\<close>

theorem Do_fan_out:
  assumes "splitQuery r = Some (Inr reqs)"
  shows "length (received recv reqs) = length reqs
   \<and> (\<forall>pre x e post.
         received recv reqs = pre @ x # post \<and> (\<forall>y\<in>set pre. resp_err y = None)
           \<and> resp_err x = Some e \<longrightarrow>
         gather pre [] None 0 = (pre, None, 0)
         \<and> gather (pre @ [x]) [] None 0 = (pre, Some e, 1)
         \<and> gather (received recv reqs) [] None 0
             = (pre @ filter (\<lambda>y. resp_err y = None) post, Some e, 1)
         \<and> Do String recv r = Some (Inl e, reqs))
   \<and> ((\<forall>y\<in>set (received recv reqs). resp_err y = None) \<longrightarrow>
         gather (received recv reqs) [] None 0 = (received recv reqs, None, 0)
         \<and> Do String recv r = Some (mergeStep String (received recv reqs), reqs))"
proof (intro conjI allI impI)
  show "length (received recv reqs) = length reqs" by (simp add: received_def)
next
  fix pre x e post
  assume a: "received recv reqs = pre @ x # post \<and> (\<forall>y\<in>set pre. resp_err y = None)
           \<and> resp_err x = Some e"
  then have a1: "received recv reqs = pre @ x # post" and a2: "\<forall>y\<in>set pre. resp_err y = None"
    and a3: "resp_err x = Some e" by simp_all
  show g0: "gather pre [] None 0 = (pre, None, 0)"
    using gather_no_error [OF a2, of "[]" None 0] by simp
  show "gather (pre @ [x]) [] None 0 = (pre, Some e, 1)"
    by (simp add: gather_append g0 a3)
  show g: "gather (received recv reqs) [] None 0
             = (pre @ filter (\<lambda>y. resp_err y = None) post, Some e, 1)"
    unfolding a1 by (simp add: gather_append g0 a3 gather_after_error)
  show "Do String recv r = Some (Inl e, reqs)"
    by (simp add: Do_def assms g)
next
  assume n: "\<forall>y\<in>set (received recv reqs). resp_err y = None"
  show g: "gather (received recv reqs) [] None 0 = (received recv reqs, None, 0)"
    using gather_no_error [OF n, of "[]" None 0] by simp
  show "Do String recv r = Some (mergeStep String (received recv reqs), reqs)"
    by (simp add: Do_def assms g)
qed


theorem Do_fan_out_witness:
  "splitQuery twoDays
     = Some (Inr [twoDays\<lparr>req_end := 85980000\<rparr>, twoDays\<lparr>req_start := 86400000\<rparr>])
   \<and> received failingFirst [twoDays\<lparr>req_end := 85980000\<rparr>, twoDays\<lparr>req_start := 86400000\<rparr>]
       = [] @ failingFirst 0 # [failingFirst 1]
   \<and> resp_err (failingFirst 0) = Some (Failure ''downstream failed'')
   \<and> gather (received failingFirst [twoDays\<lparr>req_end := 85980000\<rparr>, twoDays\<lparr>req_start := 86400000\<rparr>])
         [] None 0
       = ([matrixResponse 0 stream01], Some (Failure ''downstream failed''), 1)
   \<and> Do (\<lambda>m. ''{}'') failingFirst twoDays
       = Some (Inl (Failure ''downstream failed''),
               [twoDays\<lparr>req_end := 85980000\<rparr>, twoDays\<lparr>req_start := 86400000\<rparr>])
   \<and> resp_err (lateFirst 0) = None \<and> resp_err (lateFirst 1) = None
   \<and> gather (received lateFirst [twoDays\<lparr>req_end := 85980000\<rparr>, twoDays\<lparr>req_start := 86400000\<rparr>])
         [] None 0
       = ([lateFirst 0, lateFirst 1], None, 0)
   \<and> Do (\<lambda>m. ''{}'') lateFirst twoDays
       = Some (mergeStep (\<lambda>m. ''{}'') [lateFirst 0, lateFirst 1],
               [twoDays\<lparr>req_end := 85980000\<rparr>, twoDays\<lparr>req_start := 86400000\<rparr>])"
proof -
  let ?reqs = "[twoDays\<lparr>req_end := 85980000\<rparr>, twoDays\<lparr>req_start := 86400000\<rparr>]"
  let ?e = "Failure ''downstream failed''"
  have rf: "received failingFirst ?reqs = [failingFirst 0, failingFirst 1]"
    by (simp add: received_def upt_rec)
  have rl: "received lateFirst ?reqs = [lateFirst 0, lateFirst 1]"
    by (simp add: received_def upt_rec)
  have e0: "resp_err (failingFirst 0) = Some ?e" by (simp add: failingFirst_def)
  have f1: "failingFirst (Suc 0) = matrixResponse 0 stream01" by (simp add: failingFirst_def)
  have ok1: "resp_err (matrixResponse 0 stream01) = None" by (simp add: matrixResponse_def)
  have l0: "resp_err (lateFirst 0) = None" and l1: "resp_err (lateFirst 1) = None"
    by (simp_all add: lateFirst_def matrixResponse_def)
  have prem: "received failingFirst ?reqs = [] @ failingFirst 0 # [failingFirst 1]
      \<and> (\<forall>y\<in>set []. resp_err y = None) \<and> resp_err (failingFirst 0) = Some ?e"
    by (simp add: rf e0)
  note T = Do_fan_out [OF splitQuery_twoDays, of failingFirst "\<lambda>m. ''{}''"]
  note c = T [THEN conjunct2, THEN conjunct1, rule_format, OF prem]
  have g: "gather (received failingFirst ?reqs) [] None 0 = ([matrixResponse 0 stream01], Some ?e, 1)"
    using c [THEN conjunct2, THEN conjunct2, THEN conjunct1] by (simp add: f1 ok1)
  have d: "Do (\<lambda>m. ''{}'') failingFirst twoDays = Some (Inl ?e, ?reqs)"
    using c [THEN conjunct2, THEN conjunct2, THEN conjunct2] .
  have ok: "\<forall>y\<in>set (received lateFirst ?reqs). resp_err y = None"
    using l0 l1 by (simp add: rl)
  note T' = Do_fan_out [OF splitQuery_twoDays, of lateFirst "\<lambda>m. ''{}''"]
  note c' = T' [THEN conjunct2, THEN conjunct2, THEN mp, OF ok]
  have g': "gather (received lateFirst ?reqs) [] None 0 = ([lateFirst 0, lateFirst 1], None, 0)"
    using c' [THEN conjunct1] unfolding rl .
  have d': "Do (\<lambda>m. ''{}'') lateFirst twoDays = Some (mergeStep (\<lambda>m. ''{}'') [lateFirst 0, lateFirst 1], ?reqs)"
    using c' [THEN conjunct2] unfolding rl .
  show ?thesis
  proof (intro conjI)
    show "splitQuery twoDays = Some (Inr ?reqs)" by (fact splitQuery_twoDays)
    show "received failingFirst ?reqs = [] @ failingFirst 0 # [failingFirst 1]" by (simp add: rf)
    show "resp_err (failingFirst 0) = Some ?e" by (fact e0)
    show "gather (received failingFirst ?reqs) [] None 0 = ([matrixResponse 0 stream01], Some ?e, 1)"
      by (fact g)
    show "Do (\<lambda>m. ''{}'') failingFirst twoDays = Some (Inl ?e, ?reqs)" by (fact d)
    show "resp_err (lateFirst 0) = None" by (fact l0)
    show "resp_err (lateFirst 1) = None" by (fact l1)
    show "gather (received lateFirst ?reqs) [] None 0 = ([lateFirst 0, lateFirst 1], None, 0)"
      by (fact g')
    show "Do (\<lambda>m. ''{}'') lateFirst twoDays = Some (mergeStep (\<lambda>m. ''{}'') [lateFirst 0, lateFirst 1], ?reqs)"
      by (fact d')
  qed
qed

text \<open>The merge step in the second example sorts the two responses by their start.\<close>

lemma mergeStep_lateFirst:
  "mergeStep String [lateFirst 0, lateFirst 1]
   = Inr \<lparr>Data = \<lparr>ResultType = ValMatrix,
            Result = Matrix [None,
              Some \<lparr>ss_Metric = Map.empty,
                 ss_Values = [\<lparr>sp_Timestamp = 0, sp_Value = 0\<rparr>, \<lparr>sp_Timestamp = 1, sp_Value = 1\<rparr>,
                              \<lparr>sp_Timestamp = 2, sp_Value = 2\<rparr>,
                              \<lparr>sp_Timestamp = 3, sp_Value = (3::real)\<rparr>]\<rparr>]\<rparr>\<rparr>"
  by (simp add: mergeStep_def lateFirst_def matrixResponse_def matrixMerge_def stream01_def stream23_def)

section \<open>Properties of the merger\<close>

text \<open>
  C3.  Merging the two responses with the streams [(0,0),(1,1)] and [(2,2),(3,3)] under
  the empty label set gives a matrix of two entries: a nil pointer, left by
  \<open>make(model.Matrix, len(output))\<close>, and then the stream with the four values.
\<close>

theorem matrixMerge_leading_nil:
  "matrixMerge String
     [matrixResponse 0 \<lparr>ss_Metric = Map.empty,
         ss_Values = [\<lparr>sp_Timestamp = 0, sp_Value = 0\<rparr>, \<lparr>sp_Timestamp = 1, sp_Value = 1\<rparr>]\<rparr>,
      matrixResponse 2 \<lparr>ss_Metric = Map.empty,
         ss_Values = [\<lparr>sp_Timestamp = 2, sp_Value = 2\<rparr>, \<lparr>sp_Timestamp = 3, sp_Value = 3\<rparr>]\<rparr>]
   = Inr \<lparr>Data = \<lparr>ResultType = ValMatrix,
            Result = Matrix [None,
              Some \<lparr>ss_Metric = Map.empty,
                 ss_Values = [\<lparr>sp_Timestamp = 0, sp_Value = 0\<rparr>, \<lparr>sp_Timestamp = 1, sp_Value = 1\<rparr>,
                              \<lparr>sp_Timestamp = 2, sp_Value = 2\<rparr>,
                              \<lparr>sp_Timestamp = 3, sp_Value = (3::real)\<rparr>]\<rparr>]\<rparr>\<rparr>"
  by (simp add: matrixMerge_def matrixResponse_def)

section \<open>Properties of recovery\<close>

text \<open>
  For every store: at a sample whose fingerprint has no series the loop stops, and
  the samples after it are not looked at.
\<close>

lemma samplesLoop_stops_at_absent:
  "\<not> fpGet S (rs_userStates s) uid (smp_Fingerprint sample) \<Longrightarrow>
     samplesLoop S uid (sample # rest) s = s"
  by simp

text \<open>
  C2.  A sample whose fingerprint has no series ends the replay of its record: with a
  series for fingerprint 2 only, the record with samples for fingerprints 1 and 2 (in
  this order) leaves the store as it was, and the sample of fingerprint 2 is lost;
  with the two samples exchanged it is appended.
\<close>

theorem samplesCallback_drops_rest_of_record:
  "samplesCallback memStoreOps strayFirst \<lparr>rs_userStates = oneSeries, rs_logged = []\<rparr>
     = (None, \<lparr>rs_userStates = oneSeries, rs_logged = []\<rparr>)
   \<and> samplesCallback memStoreOps (strayFirst\<lparr>rec_Samples := rev (rec_Samples strayFirst)\<rparr>)
        \<lparr>rs_userStates = oneSeries, rs_logged = []\<rparr>
     = (None, \<lparr>rs_userStates =
                 [((''tenant'', 2), \<lparr>ms_labels = [(''job'', ''b'')],
                                      ms_samples = [\<lparr>sp_Timestamp = 20, sp_Value = 2\<rparr>]\<rparr>)],
               rs_logged = []\<rparr>)"
  by (simp add: samplesCallback_def memStoreOps_def strayFirst_def oneSeries_def memAdd_def)

text \<open>
  With the log enabled, \<open>newWAL\<close> returns a wrapper whenever both logs can be opened,
  whatever \<open>recover\<close> returns.
\<close>

lemma newWAL_enabled:
  "cfg_enabled cfg \<Longrightarrow> walNew L (cfg_dir cfg) ''samples'' = Inr samples \<Longrightarrow>
   walNew L (cfg_dir cfg) ''checkpoints'' = Inr checkpoints \<Longrightarrow>
   \<exists>w. newWAL L C S cfg ingester = Inr (Wrapper w)"
  by (simp add: newWAL_def Let_def)

lemma recover_brokenDisk:
  "recover (segLogOps brokenDisk None) noCodec memStoreOps freshWrapper
     = (Some (Failure ''input/output error''), freshWrapper, [])"
  by (simp add: recover_def recoverRecords_def segLogOps_def brokenDisk_def)

lemma newWAL_brokenDisk:
  "newWAL (segLogOps brokenDisk None) noCodec memStoreOps recoverCfg []
     = Inr (Wrapper (freshWrapper\<lparr>w_running := True\<rparr>))"
proof -
  have w: "\<lparr>w_cfg = recoverCfg, w_userStates = [], w_quitClosed = False, w_running = False,
      w_lastCheckpointSegment = 0, w_lastSamplesSegment = 0,
      w_samples = \<lparr>sl_first = 0, sl_last = 0, sl_records = [], sl_closed = False\<rparr>,
      w_checkpoints = \<lparr>sl_first = 0, sl_last = 0, sl_records = [], sl_closed = False\<rparr>\<rparr>
        = freshWrapper"
    by (simp add: freshWrapper_def)
  have "newWAL (segLogOps brokenDisk None) noCodec memStoreOps recoverCfg []
     = Inr (Wrapper (fst (snd (recover (segLogOps brokenDisk None) noCodec memStoreOps
                                  freshWrapper))\<lparr>w_running := True\<rparr>))"
    unfolding newWAL_def
    by (simp add: segLogOps_def recoverCfg_def Let_def w[unfolded recoverCfg_def])
  then show ?thesis by (simp add: recover_brokenDisk)
qed

text \<open>
  C4.  With the log and recovery enabled and a log directory that cannot be read,
  \<open>recover\<close> returns the read error, and \<open>newWAL\<close> returns a running wrapper and no
  error.
\<close>

theorem newWAL_ignores_recover_error:
  "recover (segLogOps brokenDisk None) noCodec memStoreOps freshWrapper
     = (Some (Failure ''input/output error''), freshWrapper, [])
   \<and> newWAL (segLogOps brokenDisk None) noCodec memStoreOps recoverCfg []
     = Inr (Wrapper (freshWrapper\<lparr>w_running := True\<rparr>))"
  using recover_brokenDisk newWAL_brokenDisk by simp

section \<open>Properties of shutdown\<close>






section \<open>Properties of the segment trackers\<close>

text \<open>
  C7, as stated, fails for \<open>checkpoint\<close> without live series: it returns no error and
  \<open>lastCheckpointSegment\<close> stays 2, while the last segment of the checkpoint log is 5.
\<close>

theorem checkpoint_no_series_keeps_tracker:
  "fst (checkpoint (segLogOps brokenDisk None) noCodec memStoreOps (runningWrapper [])) = None
   \<and> observedLast (segLogOps brokenDisk None) (w_checkpoints (runningWrapper [])) = Some 5
   \<and> w_lastCheckpointSegment
        (snd (checkpoint (segLogOps brokenDisk None) noCodec memStoreOps (runningWrapper []))) = 2"
  by (simp add: checkpoint_def memStoreOps_def observedLast_def segLogOps_def runningWrapper_def)

lemma truncateSamples_error:
  "fst (truncateSamples L w) \<noteq> None \<Longrightarrow>
     w_lastSamplesSegment (snd (truncateSamples L w)) = w_lastSamplesSegment w"
  by (simp add: truncateSamples_def split: sum.splits prod.splits option.splits)

lemma truncateSamples_success:
  "fst (truncateSamples L w) = None \<Longrightarrow>
     observedLast L (w_samples w) = Some (w_lastSamplesSegment (snd (truncateSamples L w)))"
  by (simp add: truncateSamples_def observedLast_def split: sum.splits prod.splits option.splits)

lemma checkpoint_cases:
  fixes L :: "'l logOps" and C :: "'v codecOps" and S :: "('us, 'v) storeOps"
    and w :: "('us, 'l) wrapper"
  defines "l1 \<equiv> snd (checkpointLoop L C S (w_userStates w) (iterSeries S (w_userStates w))
                       (w_checkpoints w))"
  shows "(fst (checkpoint L C S w) \<noteq> None \<and>
            w_lastCheckpointSegment (snd (checkpoint L C S w)) = w_lastCheckpointSegment w)
         \<or> (iterSeries S (w_userStates w) = [] \<and> checkpoint L C S w = (None, w))
         \<or> (iterSeries S (w_userStates w) \<noteq> [] \<and> fst (checkpoint L C S w) = None \<and>
            observedLast L l1 = Some (w_lastCheckpointSegment (snd (checkpoint L C S w))))"
proof (cases "iterSeries S (w_userStates w) = []")
  case True
  then show ?thesis by (simp add: checkpoint_def)
next
  case ne: False
  show ?thesis
  proof (cases "quo64 (cfg_checkpointDuration (w_cfg w))
                  (int (length (iterSeries S (w_userStates w)))) \<le> 0")
    case True
    then show ?thesis using ne by (simp add: checkpoint_def Let_def)
  next
    case pos: False
    obtain r la where loop:
      "checkpointLoop L C S (w_userStates w) (iterSeries S (w_userStates w)) (w_checkpoints w)
         = (r, la)"
      by (cases "checkpointLoop L C S (w_userStates w) (iterSeries S (w_userStates w))
                   (w_checkpoints w)")
    then have la: "l1 = la" by (simp add: l1_def)
    show ?thesis
    proof (cases r)
      case (Some e)
      then show ?thesis using ne pos loop by (simp add: checkpoint_def Let_def)
    next
      case None
      show ?thesis
      proof (cases "walSegments L la")
        case (Inl e)
        then show ?thesis using ne pos loop None by (simp add: checkpoint_def Let_def)
      next
        case (Inr fl)
        obtain firstSeg lastSeg where fl: "fl = (firstSeg, lastSeg)" by (cases fl)
        obtain r2 l2 where tr: "walTruncate L la (w_lastCheckpointSegment w) = (r2, l2)"
          by (cases "walTruncate L la (w_lastCheckpointSegment w)")
        show ?thesis
        proof (cases r2)
          case (Some e)
          then show ?thesis using ne pos loop None Inr fl tr by (simp add: checkpoint_def Let_def)
        next
          case r2None: None
          then show ?thesis using ne pos loop None Inr fl tr la
            by (simp add: checkpoint_def Let_def observedLast_def)
        qed
      qed
    qed
  qed
qed

text \<open>
  C7, amended.  When \<open>checkpoint\<close> or \<open>truncateSamples\<close> does not complete (an error, or
  the ticker's panic), its tracker is unchanged.  When \<open>truncateSamples\<close> returns no
  error, \<open>lastSamplesSegment\<close> is the last segment reported by the sample log before
  the truncate.  When \<open>checkpoint\<close> returns no error and there is a live series,
  \<open>lastCheckpointSegment\<close> is the last segment reported by the checkpoint log after
  the appends and before the truncate.  Without a live series \<open>checkpoint\<close> returns no
  error and changes nothing.
\<close>

theorem segment_trackers:
  "(fst (checkpoint L C S w) \<noteq> None \<longrightarrow>
      w_lastCheckpointSegment (snd (checkpoint L C S w)) = w_lastCheckpointSegment w)
   \<and> (fst (truncateSamples L w) \<noteq> None \<longrightarrow>
      w_lastSamplesSegment (snd (truncateSamples L w)) = w_lastSamplesSegment w)
   \<and> (fst (truncateSamples L w) = None \<longrightarrow>
      observedLast L (w_samples w) = Some (w_lastSamplesSegment (snd (truncateSamples L w))))
   \<and> (fst (checkpoint L C S w) = None \<and> iterSeries S (w_userStates w) \<noteq> [] \<longrightarrow>
      observedLast L (snd (checkpointLoop L C S (w_userStates w) (iterSeries S (w_userStates w))
                             (w_checkpoints w)))
        = Some (w_lastCheckpointSegment (snd (checkpoint L C S w))))
   \<and> (iterSeries S (w_userStates w) = [] \<longrightarrow> checkpoint L C S w = (None, w))"
proof -
  have e: "iterSeries S (w_userStates w) = [] \<longrightarrow> checkpoint L C S w = (None, w)"
    by (simp add: checkpoint_def)
  show ?thesis
    using checkpoint_cases [of L C S w] truncateSamples_error [of L w]
      truncateSamples_success [of L w] e
    by auto
qed

lemma checkpointLoop_liveSeries:
  "checkpointLoop (segLogOps d t) noCodec memStoreOps liveSeries [(''tenant'', 1)]
     \<lparr>sl_first = 2, sl_last = 5, sl_records = [], sl_closed = False\<rparr>
   = (None, \<lparr>sl_first = 2, sl_last = 5, sl_records = [[]], sl_closed = False\<rparr>)"
  by (simp add: checkpointSeries_def memStoreOps_def noCodec_def tableCodec_def segLogOps_def)

lemma perSeriesDuration_hour: "quo64 3600000000000 1 = 3600000000000"
  by (simp add: quo64_def wrap64_def)

lemma iterSeries_liveSeries: "iterSeries memStoreOps liveSeries = [(''tenant'', 1)]"
  by (simp add: memStoreOps_def liveSeries_def)

lemma runningWrapper_fields:
  "w_userStates (runningWrapper us) = us"
  "w_checkpoints (runningWrapper us)
     = \<lparr>sl_first = 2, sl_last = 5, sl_records = [], sl_closed = False\<rparr>"
  "cfg_checkpointDuration (w_cfg (runningWrapper us)) = 3600000000000"
  "w_lastCheckpointSegment (runningWrapper us) = 2"
  by (simp_all add: runningWrapper_def recoverCfg_def)

lemma checkpoint_liveSeries:
  "checkpoint (segLogOps brokenDisk None) noCodec memStoreOps (runningWrapper liveSeries)
   = (None, (runningWrapper liveSeries)
        \<lparr>w_checkpoints := \<lparr>sl_first = 2, sl_last = 5, sl_records = [[]], sl_closed = False\<rparr>,
         w_lastCheckpointSegment := 5\<rparr>)"
proof -
  let ?L = "segLogOps brokenDisk None"
  have l: "checkpointLoop ?L noCodec memStoreOps liveSeries (iterSeries memStoreOps liveSeries)
     \<lparr>sl_first = 2, sl_last = 5, sl_records = [], sl_closed = False\<rparr>
   = (None, \<lparr>sl_first = 2, sl_last = 5, sl_records = [[]], sl_closed = False\<rparr>)"
    unfolding iterSeries_liveSeries by (rule checkpointLoop_liveSeries)
  have s: "walSegments ?L \<lparr>sl_first = 2, sl_last = 5, sl_records = [[]], sl_closed = False\<rparr>
             = Inr (2, 5)"
    by (simp add: segLogOps_def)
  have t: "walTruncate ?L \<lparr>sl_first = 2, sl_last = 5, sl_records = [[]], sl_closed = False\<rparr> 2
     = (None, \<lparr>sl_first = 2, sl_last = 5, sl_records = [[]], sl_closed = False\<rparr>)"
    by (simp add: segLogOps_def)
  show ?thesis
    unfolding checkpoint_def runningWrapper_fields l
    by (simp add: iterSeries_liveSeries perSeriesDuration_hour s t)
qed

lemma checkpoint_liveSeries_disk_full:
  "checkpoint (segLogOps brokenDisk (Some (Failure ''disk full''))) noCodec memStoreOps
     (runningWrapper liveSeries)
   = (Some (Failure ''disk full''),
      (runningWrapper liveSeries)
        \<lparr>w_checkpoints := \<lparr>sl_first = 2, sl_last = 5, sl_records = [[]], sl_closed = False\<rparr>\<rparr>)"
proof -
  let ?L = "segLogOps brokenDisk (Some (Failure ''disk full''))"
  have l: "checkpointLoop ?L noCodec memStoreOps liveSeries (iterSeries memStoreOps liveSeries)
     \<lparr>sl_first = 2, sl_last = 5, sl_records = [], sl_closed = False\<rparr>
   = (None, \<lparr>sl_first = 2, sl_last = 5, sl_records = [[]], sl_closed = False\<rparr>)"
    unfolding iterSeries_liveSeries by (rule checkpointLoop_liveSeries)
  have s: "walSegments ?L \<lparr>sl_first = 2, sl_last = 5, sl_records = [[]], sl_closed = False\<rparr>
             = Inr (2, 5)"
    by (simp add: segLogOps_def)
  have t: "walTruncate ?L \<lparr>sl_first = 2, sl_last = 5, sl_records = [[]], sl_closed = False\<rparr> 2
     = (Some (Failure ''disk full''),
        \<lparr>sl_first = 2, sl_last = 5, sl_records = [[]], sl_closed = False\<rparr>)"
    by (simp add: segLogOps_def)
  show ?thesis
    unfolding checkpoint_def runningWrapper_fields l
    by (simp add: iterSeries_liveSeries perSeriesDuration_hour s t)
qed

lemma truncateSamples_liveSeries:
  "truncateSamples (segLogOps brokenDisk None) (runningWrapper liveSeries)
   = (None, (runningWrapper liveSeries)\<lparr>w_lastSamplesSegment := 9\<rparr>)"
  by (simp add: truncateSamples_def segLogOps_def runningWrapper_def)

lemma truncateSamples_liveSeries_disk_full:
  "truncateSamples (segLogOps brokenDisk (Some (Failure ''disk full''))) (runningWrapper liveSeries)
   = (Some (Failure ''disk full''), runningWrapper liveSeries)"
  by (simp add: truncateSamples_def segLogOps_def runningWrapper_def)

theorem segment_trackers_witness:
  "fst (checkpoint (segLogOps brokenDisk (Some (Failure ''disk full''))) noCodec memStoreOps
          (runningWrapper liveSeries)) \<noteq> None
   \<and> w_lastCheckpointSegment
        (snd (checkpoint (segLogOps brokenDisk (Some (Failure ''disk full''))) noCodec memStoreOps
                (runningWrapper liveSeries)))
       = w_lastCheckpointSegment (runningWrapper liveSeries)
   \<and> fst (truncateSamples (segLogOps brokenDisk (Some (Failure ''disk full'')))
            (runningWrapper liveSeries)) \<noteq> None
   \<and> w_lastSamplesSegment
        (snd (truncateSamples (segLogOps brokenDisk (Some (Failure ''disk full'')))
                (runningWrapper liveSeries)))
       = w_lastSamplesSegment (runningWrapper liveSeries)
   \<and> fst (truncateSamples (segLogOps brokenDisk None) (runningWrapper liveSeries)) = None
   \<and> observedLast (segLogOps brokenDisk None) (w_samples (runningWrapper liveSeries))
       = Some (w_lastSamplesSegment
                 (snd (truncateSamples (segLogOps brokenDisk None) (runningWrapper liveSeries))))
   \<and> fst (checkpoint (segLogOps brokenDisk None) noCodec memStoreOps (runningWrapper liveSeries))
       = None
   \<and> iterSeries memStoreOps (w_userStates (runningWrapper liveSeries)) \<noteq> []
   \<and> observedLast (segLogOps brokenDisk None)
        (snd (checkpointLoop (segLogOps brokenDisk None) noCodec memStoreOps
                (w_userStates (runningWrapper liveSeries))
                (iterSeries memStoreOps (w_userStates (runningWrapper liveSeries)))
                (w_checkpoints (runningWrapper liveSeries))))
       = Some (w_lastCheckpointSegment
                 (snd (checkpoint (segLogOps brokenDisk None) noCodec memStoreOps
                         (runningWrapper liveSeries))))
   \<and> iterSeries (memStoreOps :: (real memStore, real) storeOps) (w_userStates (runningWrapper []))
       = []
   \<and> checkpoint (segLogOps brokenDisk None) noCodec memStoreOps (runningWrapper [])
       = (None, runningWrapper [])"
proof -
  have h1: "fst (checkpoint (segLogOps brokenDisk (Some (Failure ''disk full''))) noCodec
                  memStoreOps (runningWrapper liveSeries)) \<noteq> None"
    by (simp add: checkpoint_liveSeries_disk_full)
  have h2: "fst (truncateSamples (segLogOps brokenDisk (Some (Failure ''disk full'')))
                  (runningWrapper liveSeries)) \<noteq> None"
    by (simp add: truncateSamples_liveSeries_disk_full)
  have h3: "fst (truncateSamples (segLogOps brokenDisk None) (runningWrapper liveSeries)) = None"
    by (simp add: truncateSamples_liveSeries)
  have h4: "fst (checkpoint (segLogOps brokenDisk None) noCodec memStoreOps
                  (runningWrapper liveSeries)) = None"
    by (simp add: checkpoint_liveSeries)
  have h5: "iterSeries memStoreOps (w_userStates (runningWrapper liveSeries)) \<noteq> []"
    by (simp add: memStoreOps_def runningWrapper_def liveSeries_def)
  have h6: "iterSeries (memStoreOps :: (real memStore, real) storeOps)
              (w_userStates (runningWrapper [])) = []"
    by (simp add: memStoreOps_def runningWrapper_def)
  show ?thesis
    using segment_trackers [of "segLogOps brokenDisk (Some (Failure ''disk full''))" noCodec
             memStoreOps "runningWrapper liveSeries"]
      segment_trackers [of "segLogOps brokenDisk None" noCodec memStoreOps
             "runningWrapper liveSeries"]
      segment_trackers [of "segLogOps brokenDisk None" noCodec memStoreOps "runningWrapper []"]
      h1 h2 h3 h4 h5 h6
    by blast
qed

end
